theory Spec2Isabelle
  imports Main "HOL-Library.Sublist"
begin

section \<open>The document-query chat script \<^verbatim>\<open>app.py\<close>\<close>

text \<open>
  The script is a Streamlit page around the \<^verbatim>\<open>ragbase\<close> package. The package, the
  Streamlit runtime, the clock and the random generator are not part of \<^verbatim>\<open>app.py\<close>;
  they enter the model as parameters:
  \<^item> the collaborators of \<^verbatim>\<open>ragbase\<close> are the fields of a record; each returns a value or
    raises, and the values they exchange are opaque objects of one type \<open>'v\<close>
    (Python is dynamically typed); a call of a collaborator of the ingestion pipeline
    may besides change what is on disk (\<open>upload_files\<close> persists the files, \<open>ingest\<close>
    builds the index) and the training attributes of the session state, in a way the
    record gives as well;
  \<^item> the widget values of one script run, the clock reading and the random choice are the
    fields of a record of inputs;
  \<^item> everything the script does to the outside is appended to a chronological trace:
    user-interface calls, collaborator calls, file-system calls and assignments to the
    session state.
  The file-system calls of the script itself are modelled as succeeding (no I/O error).
  The message history, the memo of \<^verbatim>\<open>st.cache_resource\<close> and the trace are out of a
  collaborator's reach.
\<close>

subsection \<open>Python values\<close>

type_synonym path = "string list"
  \<comment> \<open>a \<^verbatim>\<open>pathlib.Path\<close>, by its components; \<^verbatim>\<open>p / name\<close> is \<open>p @ [name]\<close>\<close>

datatype error = StopException | Raised string
  \<comment> \<open>\<^verbatim>\<open>st.stop()\<close> halts the script run; any other exception is named\<close>

record message =
  role :: string
  content :: string

record document =
  page_content :: string

text \<open>
  An event of the stream of \<^verbatim>\<open>ask_question\<close>, by its dynamic type: \<^verbatim>\<open>type(event) is str\<close>
  holds of \<open>Text\<close> only and \<^verbatim>\<open>type(event) is list\<close> of \<open>Docs\<close> only. An instance of a
  proper subclass of \<^verbatim>\<open>str\<close> or \<^verbatim>\<open>list\<close> fails both tests, as any other object does.
\<close>

datatype event =
    Text string
  | Docs "document list"
  | Text_subclass string
  | Docs_subclass "document list"
  | Other_object

record datetime =
  year :: nat
  month :: nat
  day :: nat
  hour :: nat
  minute :: nat
  second :: nat

subsection \<open>Formatting\<close>

definition newline :: char where
  "newline = CHR 0x0A"

definition digit_char :: "nat \<Rightarrow> char" where
  "digit_char d = ''0123456789'' ! d"

text \<open>\<^verbatim>\<open>str(n)\<close> and the \<^verbatim>\<open>{n}\<close> of an f-string, for a non-negative integer.\<close>

fun str_nat :: "nat \<Rightarrow> string" where
  "str_nat n =
     (if n < 10 then [digit_char n] else str_nat (n div 10) @ [digit_char (n mod 10)])"

declare str_nat.simps [simp del]

definition zero_pad :: "nat \<Rightarrow> string \<Rightarrow> string" where
  "zero_pad w s = replicate (w - length s) (CHR ''0'') @ s"

text \<open>\<^verbatim>\<open>strftime("%Y-%m-%d %H:%M:%S")\<close>: the year on four digits, the other fields on two.\<close>

definition strftime :: "datetime \<Rightarrow> string" where
  "strftime t =
     zero_pad 4 (str_nat (year t)) @ ''-'' @ zero_pad 2 (str_nat (month t)) @ ''-'' @
     zero_pad 2 (str_nat (day t)) @ '' '' @ zero_pad 2 (str_nat (hour t)) @ '':'' @
     zero_pad 2 (str_nat (minute t)) @ '':'' @ zero_pad 2 (str_nat (second t))"

text \<open>
  The lines of a text file, as \<^verbatim>\<open>read().splitlines()\<close> gives them for a text whose only
  line break is the newline: a line ends at each newline, and a last line with no newline
  counts when it is not empty.
\<close>

fun lines_from :: "string \<Rightarrow> string \<Rightarrow> string list" where
  "lines_from cur [] = (if cur = [] then [] else [cur])"
| "lines_from cur (c # cs) =
     (if c = newline then cur # lines_from [] cs else lines_from (cur @ [c]) cs)"

definition text_lines :: "string \<Rightarrow> string list" where
  "text_lines s = lines_from [] s"

subsection \<open>Configuration, collaborators, inputs\<close>

text \<open>
  \<^verbatim>\<open>ragbase.config.Config\<close> is not part of \<^verbatim>\<open>app.py\<close>: the fields the script reads are
  parameters.
\<close>

record config =
  CONVERSATION_MESSAGES_LIMIT :: int
  SHOW_SOURCES :: bool
  DATABASE_DIR :: path
  IMAGES_DIR :: path
  VERSION :: string

text \<open>A call of a collaborator, with its arguments.\<close>

datatype 'v call =
    Upload_files "'v list"
  | Ingest 'v
  | Create_llm
  | Create_retriever 'v 'v
  | Create_chain 'v 'v
  | Ask_question 'v string string

text \<open>
  What a collaborator of the ingestion pipeline can reach besides its arguments: the
  directories and files on disk, and the two training attributes of the session state.
\<close>

record environment =
  env_last_trained :: "string option"
  env_files_ingested :: "nat option"
  env_dirs :: "path set"
  env_files :: "path \<rightharpoonup> string"

text \<open>
  The collaborators imported from \<^verbatim>\<open>ragbase\<close>. \<open>ask_question\<close> gives the finite stream of
  events that the \<^verbatim>\<open>async for\<close> of \<^verbatim>\<open>ask_chain\<close> receives, for a chain, a question and a
  session identifier. \<open>side_effect\<close> gives what a call of the ingestion pipeline does to
  the environment, whether the call returns or raises.
\<close>

record 'v ragbase =
  upload_files :: "'v list \<Rightarrow> error + 'v"
  ingest :: "'v \<Rightarrow> error + 'v"
  create_llm :: "error + 'v"
  create_retriever :: "'v \<Rightarrow> 'v \<Rightarrow> error + 'v"
  create_chain :: "'v \<Rightarrow> 'v \<Rightarrow> error + 'v"
  ask_question :: "'v \<Rightarrow> string \<Rightarrow> string \<Rightarrow> event list"
  side_effect :: "'v call \<Rightarrow> environment \<Rightarrow> environment"

text \<open>
  What one run of the script reads from outside: the clock (\<^verbatim>\<open>datetime.now()\<close>), the index
  that \<^verbatim>\<open>random.choice\<close> picks, the value of the file uploader (\<open>None\<close> when absent) and
  the value of the chat input (\<open>None\<close> when nothing was submitted).
\<close>

record 'v inputs =
  now :: datetime
  choice :: nat
  uploaded_files :: "'v list option"
  prompt :: "string option"

subsection \<open>Effects and state\<close>

datatype ui =
    Set_page_config
  | Html_style
  | Markdown_style
  | St_empty
  | Title string
  | Header string
  | Subheader string
  | File_uploader
  | Warning string
  | Spinner string
  | Holder_cleared
  | Markdown string
  | Columns
  | Success string
  | Info string
  | Chat_message string path
  | Status string
  | Expander string
  | Write string
  | Chat_input string

datatype 'v effect =
    UI ui
  | Call "'v call"
  | Makedirs path
  | Write_file path string
  | Set_last_trained string
  | Set_files_ingested nat
  | Set_messages "message list"
  | Append_message message

text \<open>
  \<^verbatim>\<open>st.session_state\<close>: an attribute is absent (\<open>None\<close>) until it is assigned, and reading
  an absent attribute raises \<^verbatim>\<open>AttributeError\<close>.
\<close>

record session_state =
  messages :: "message list option"
  last_trained :: "string option"
  files_ingested :: "nat option"

text \<open>
  The state a script run works on: the session state, the directories and files on disk,
  the memo of \<^verbatim>\<open>st.cache_resource\<close> for \<^verbatim>\<open>build_qa_chain\<close> (argument to cached return
  value; Streamlit keys it by a hash of the argument, which equality of the argument
  stands for), and the trace of effects so far.
\<close>

record 'v state =
  session :: session_state
  fs_dirs :: "path set"
  fs_files :: "path \<rightharpoonup> string"
  cache :: "'v list \<rightharpoonup> 'v"
  trace :: "'v effect list"

definition emit :: "'v effect \<Rightarrow> 'v state \<Rightarrow> 'v state" where
  "emit e s = s\<lparr>trace := trace s @ [e]\<rparr>"

definition emits :: "'v effect list \<Rightarrow> 'v state \<Rightarrow> 'v state" where
  "emits es s = s\<lparr>trace := trace s @ es\<rparr>"

text \<open>\<^verbatim>\<open>os.makedirs(d, exist_ok=True)\<close>\<close>

definition makedirs :: "path \<Rightarrow> 'v state \<Rightarrow> 'v state" where
  "makedirs d s = emit (Makedirs d) (s\<lparr>fs_dirs := insert d (fs_dirs s)\<rparr>)"

text \<open>\<^verbatim>\<open>with open(p, "w") as f: f.write(a); f.write(b)\<close> with \<open>txt = a @ b\<close>\<close>

definition write_file :: "path \<Rightarrow> string \<Rightarrow> 'v state \<Rightarrow> 'v state" where
  "write_file p txt s = emit (Write_file p txt) (s\<lparr>fs_files := (fs_files s)(p \<mapsto> txt)\<rparr>)"

definition set_last_trained :: "string \<Rightarrow> 'v state \<Rightarrow> 'v state" where
  "set_last_trained v s =
     emit (Set_last_trained v) (s\<lparr>session := (session s)\<lparr>last_trained := Some v\<rparr>\<rparr>)"

definition set_files_ingested :: "nat \<Rightarrow> 'v state \<Rightarrow> 'v state" where
  "set_files_ingested n s =
     emit (Set_files_ingested n) (s\<lparr>session := (session s)\<lparr>files_ingested := Some n\<rparr>\<rparr>)"

text \<open>The environment within a state, and a state with another environment.\<close>

definition environment_of :: "'v state \<Rightarrow> environment" where
  "environment_of s =
     \<lparr>env_last_trained = last_trained (session s),
      env_files_ingested = files_ingested (session s),
      env_dirs = fs_dirs s, env_files = fs_files s\<rparr>"

definition put_environment :: "environment \<Rightarrow> 'v state \<Rightarrow> 'v state" where
  "put_environment env s =
     s\<lparr>session := (session s)\<lparr>last_trained := env_last_trained env,
                                  files_ingested := env_files_ingested env\<rparr>,
       fs_dirs := env_dirs env, fs_files := env_files env\<rparr>"

text \<open>What a collaborator call does to the state: it is traced and has its side effect.\<close>

definition perform :: "'v ragbase \<Rightarrow> 'v call \<Rightarrow> 'v state \<Rightarrow> 'v state" where
  "perform rb c s = put_environment (side_effect rb c (environment_of s)) (emit (Call c) s)"

text \<open>A collaborator call: the call is performed, and its result is the call's result.\<close>

definition invoke ::
  "'v ragbase \<Rightarrow> 'v call \<Rightarrow> error + 'a \<Rightarrow> 'v state \<Rightarrow> (error + 'a) \<times> 'v state"
where
  "invoke rb c r s = (r, perform rb c s)"

text \<open>Sequencing: an exception ends the computation in the state reached.\<close>

definition bind ::
  "('s \<Rightarrow> (error + 'a) \<times> 's) \<Rightarrow> ('a \<Rightarrow> 's \<Rightarrow> (error + 'b) \<times> 's) \<Rightarrow> 's \<Rightarrow> (error + 'b) \<times> 's"
where
  "bind m f s = (case m s of (Inl e, s') \<Rightarrow> (Inl e, s') | (Inr x, s') \<Rightarrow> f x s')"

subsection \<open>\<^verbatim>\<open>build_qa_chain\<close>\<close>

definition training_info_path :: "config \<Rightarrow> path" where
  "training_info_path cfg = DATABASE_DIR cfg @ [''training_info.txt'']"

definition training_info_text :: "string \<Rightarrow> nat \<Rightarrow> string" where
  "training_info_text last_trained_v files_ingested_v =
     (''Last Trained: '' @ last_trained_v @ [newline]) @
     (''Files Ingested: '' @ str_nat files_ingested_v @ [newline])"

text \<open>Lines 39 to 49: the bookkeeping before the first collaborator call.\<close>

definition record_training :: "config \<Rightarrow> datetime \<Rightarrow> 'v list \<Rightarrow> 'v state \<Rightarrow> 'v state" where
  "record_training cfg t files s =
     (let s1 = makedirs (DATABASE_DIR cfg) s;
          last_trained_v = strftime t;
          files_ingested_v = length files;
          s2 = set_last_trained last_trained_v s1;
          s3 = set_files_ingested files_ingested_v s2
      in write_file (training_info_path cfg)
           (training_info_text last_trained_v files_ingested_v) s3)"

text \<open>Lines 51 to 55: the collaborators, one after the other.\<close>

definition run_pipeline :: "'v ragbase \<Rightarrow> 'v list \<Rightarrow> 'v state \<Rightarrow> (error + 'v) \<times> 'v state" where
  "run_pipeline rb files =
     bind (invoke rb (Upload_files files) (upload_files rb files)) (\<lambda>file_paths.
     bind (invoke rb (Ingest file_paths) (ingest rb file_paths)) (\<lambda>vector_store.
     bind (invoke rb Create_llm (create_llm rb)) (\<lambda>llm.
     bind (invoke rb (Create_retriever llm vector_store)
             (create_retriever rb llm vector_store)) (\<lambda>retriever.
     invoke rb (Create_chain llm retriever) (create_chain rb llm retriever)))))"

text \<open>The body of the function, lines 35 to 55.\<close>

definition build_qa_chain_body ::
  "config \<Rightarrow> 'v ragbase \<Rightarrow> datetime \<Rightarrow> 'v list \<Rightarrow> 'v state \<Rightarrow> (error + 'v) \<times> 'v state"
where
  "build_qa_chain_body cfg rb t files s = run_pipeline rb files (record_training cfg t files s)"

text \<open>
  The function as decorated on line 34 with \<^verbatim>\<open>st.cache_resource\<close>: a call whose argument
  has an entry in the memo returns the stored value and does not run the body; otherwise
  the body runs and, when it returns, its value is stored. A call that raises stores
  nothing.
\<close>

definition build_qa_chain ::
  "config \<Rightarrow> 'v ragbase \<Rightarrow> datetime \<Rightarrow> 'v list \<Rightarrow> 'v state \<Rightarrow> (error + 'v) \<times> 'v state"
where
  "build_qa_chain cfg rb t files s =
     (case cache s files of
        Some chain \<Rightarrow> (Inr chain, s)
      | None \<Rightarrow>
          (case build_qa_chain_body cfg rb t files s of
             (Inl e, s') \<Rightarrow> (Inl e, s')
           | (Inr chain, s') \<Rightarrow> (Inr chain, s'\<lparr>cache := (cache s')(files \<mapsto> chain)\<rparr>)))"

subsection \<open>\<^verbatim>\<open>ask_chain\<close>\<close>

definition LOADING_MESSAGES :: "string list" where
  "LOADING_MESSAGES =
     [''Searching through our knowledge base...'',
      ''Analyzing relevant documents...'',
      ''Connecting information from multiple sources...'',
      ''Retrieving context-specific data...'',
      ''Synthesizing insights from company documents...'',
      ''Extracting key information from our database...'',
      ''Combining relevant data points...'',
      ''Processing organizational knowledge...'',
      ''Accessing secure company archives...'',
      ''Integrating information across departments...'']"

text \<open>\<^verbatim>\<open>random.choice(seq)\<close>, for the index the generator picks.\<close>

definition random_choice :: "nat \<Rightarrow> 'a list \<Rightarrow> 'a" where
  "random_choice i seq = seq ! (i mod length seq)"

definition session_id :: string where
  "session_id = ''session-id-42''"

definition assistant_avatar :: "config \<Rightarrow> path" where
  "assistant_avatar cfg = IMAGES_DIR cfg @ [''assistant-avatar.png'']"

definition user_avatar :: "config \<Rightarrow> path" where
  "user_avatar cfg = IMAGES_DIR cfg @ [''user-avatar.png'']"

text \<open>
  The \<^verbatim>\<open>async for\<close> of lines 67 to 72, on the events still to come, the response so far
  and the documents so far. The two tests of the source exclude each other, so one case
  distinction on the dynamic type of the event covers both.
\<close>

fun consume_stream ::
  "event list \<Rightarrow> string \<Rightarrow> document list \<Rightarrow> 'v state \<Rightarrow> string \<times> document list \<times> 'v state"
where
  "consume_stream [] full_response documents s = (full_response, documents, s)"
| "consume_stream (ev # rest) full_response documents s =
     (case ev of
        Text fragment \<Rightarrow>
          consume_stream rest (full_response @ fragment) documents
            (emit (UI (Markdown (full_response @ fragment))) s)
      | Docs ds \<Rightarrow> consume_stream rest full_response (documents @ ds) s
      | _ \<Rightarrow> consume_stream rest full_response documents s)"

text \<open>Lines 74 to 76: one expander per collected document, numbered from 1.\<close>

definition show_sources :: "document list \<Rightarrow> 'v effect list" where
  "show_sources documents =
     concat (map (\<lambda>(i, doc). [UI (Expander (''Source #'' @ str_nat (i + 1))),
                               UI (Write (page_content doc))])
                 (enumerate 0 documents))"

text \<open>\<^verbatim>\<open>st.session_state.messages.append(m)\<close>\<close>

definition append_message :: "message \<Rightarrow> 'v state \<Rightarrow> (error + unit) \<times> 'v state" where
  "append_message m s =
     (case messages (session s) of
        None \<Rightarrow> (Inl (Raised ''AttributeError''), s)
      | Some ms \<Rightarrow>
          (Inr (), emit (Append_message m)
                     (s\<lparr>session := (session s)\<lparr>messages := Some (ms @ [m])\<rparr>\<rparr>)))"

definition ask_chain ::
  "config \<Rightarrow> 'v ragbase \<Rightarrow> nat \<Rightarrow> string \<Rightarrow> 'v \<Rightarrow> 'v state \<Rightarrow> (error + unit) \<times> 'v state"
where
  "ask_chain cfg rb ch question chain s =
     (let s1 = emits [UI (Chat_message ''assistant'' (assistant_avatar cfg)),
                      UI St_empty,
                      UI (Status (random_choice ch LOADING_MESSAGES)),
                      Call (Ask_question chain question session_id)] s;
          (full_response, documents, s2) =
             consume_stream (ask_question rb chain question session_id) [] [] s1;
          s3 = (if SHOW_SOURCES cfg then emits (show_sources documents) s2 else s2)
      in append_message \<lparr>role = ''assistant'', content = full_response\<rparr> s3)"

subsection \<open>The upload handler, the history and the chat input\<close>

text \<open>The emoji of the titles, as their UTF-8 bytes.\<close>

definition emoji_folder :: string where
  "emoji_folder = [CHR 0xF0, CHR 0x9F, CHR 0x93, CHR 0x81]"

definition emoji_vs :: string where
  "emoji_vs = [CHR 0xF0, CHR 0x9F, CHR 0x86, CHR 0x9A]"

definition emoji_robot :: string where
  "emoji_robot = [CHR 0xF0, CHR 0x9F, CHR 0xA4, CHR 0x96]"

text \<open>
  Lines 81 to 98. \<^verbatim>\<open>not uploaded_files\<close> holds when the value is absent or the empty
  list; \<^verbatim>\<open>st.stop()\<close> ends the run.
\<close>

definition show_upload_documents ::
  "config \<Rightarrow> 'v ragbase \<Rightarrow> datetime \<Rightarrow> 'v list option \<Rightarrow> 'v state \<Rightarrow> (error + 'v) \<times> 'v state"
where
  "show_upload_documents cfg rb t uploaded s =
     (let s1 = emits [UI St_empty,
                      UI (Title (''Document Ingestion Portal '' @ emoji_folder)),
                      UI (Header (''VectorDB for VS-GPT '' @ emoji_vs @ emoji_robot)),
                      UI (Subheader ''Upload your documents to create the knowledge base''),
                      UI File_uploader] s;
          halted = (Inl StopException,
                    emit (UI (Warning ''Please upload PDF documents to continue!'')) s1)
      in case uploaded of
           None \<Rightarrow> halted
         | Some files \<Rightarrow>
             if files = [] then halted
             else build_qa_chain cfg rb t files
                    (emits [UI (Spinner ''Analyzing your document(s)...''),
                            UI Holder_cleared] s1))"

definition avatar_of :: "config \<Rightarrow> string \<Rightarrow> path" where
  "avatar_of cfg r = (if r = ''assistant'' then assistant_avatar cfg else user_avatar cfg)"

definition show_message_history :: "config \<Rightarrow> 'v state \<Rightarrow> (error + unit) \<times> 'v state" where
  "show_message_history cfg s =
     (case messages (session s) of
        None \<Rightarrow> (Inl (Raised ''AttributeError''), s)
      | Some ms \<Rightarrow>
          (Inr (), emits (concat (map (\<lambda>m. [UI (Chat_message (role m) (avatar_of cfg (role m))),
                                             UI (Markdown (content m))]) ms)) s))"

text \<open>\<^verbatim>\<open>if prompt := st.chat_input(...)\<close>: the branch is taken for a non-empty string.\<close>

definition show_chat_input ::
  "config \<Rightarrow> 'v ragbase \<Rightarrow> nat \<Rightarrow> string option \<Rightarrow> 'v \<Rightarrow> 'v state \<Rightarrow> (error + unit) \<times> 'v state"
where
  "show_chat_input cfg rb ch pr chain s =
     (let s1 = emit (UI (Chat_input ''Ask your question here'')) s
      in case pr of
           None \<Rightarrow> (Inr (), s1)
         | Some p \<Rightarrow>
             if p = [] then (Inr (), s1)
             else bind (append_message \<lparr>role = ''user'', content = p\<rparr>)
                    (\<lambda>_ s2. ask_chain cfg rb ch p chain
                               (emits [UI (Chat_message ''user'' (user_avatar cfg)),
                                       UI (Markdown p)] s2)) s1)"

subsection \<open>The script\<close>

definition greeting :: message where
  "greeting = \<lparr>role = ''assistant'',
               content = ''Hi! I'' @ [CHR 0x27] @ ''m VS-Bot '' @ emoji_robot @
                         '', How can I help you today?''\<rparr>"

definition limit_warning :: string where
  "limit_warning =
     ''You have reached the conversation limit. Refresh the page to start a new conversation.''"

definition page_heading :: string where
  "page_heading =
     [newline] @ replicate 16 (CHR '' '') @ ''# :rainbow[VectoScalar-GPT] '' @ emoji_vs @
     emoji_robot @ [newline] @ replicate 12 (CHR '' '')"

text \<open>Lines 147 to 153: the history is created on the first run of a session.\<close>

definition init_messages :: "'v state \<Rightarrow> 'v state" where
  "init_messages s =
     (case messages (session s) of
        None \<Rightarrow> emit (Set_messages [greeting])
                  (s\<lparr>session := (session s)\<lparr>messages := Some [greeting]\<rparr>\<rparr>)
      | Some _ \<Rightarrow> s)"

text \<open>Lines 167 to 186: the heading and the three columns.\<close>

definition show_status_row :: "config \<Rightarrow> 'v state \<Rightarrow> (error + unit) \<times> 'v state" where
  "show_status_row cfg s =
     (let s1 = emits [UI (Markdown page_heading), UI Columns,
                      UI (Success (''Version : '' @ VERSION cfg))] s
      in case last_trained (session s1) of
           None \<Rightarrow> (Inl (Raised ''AttributeError''), s1)
         | Some lt \<Rightarrow>
             (let s2 = emit (UI (Info (''Last Trained : '' @ lt))) s1
              in case files_ingested (session s2) of
                   None \<Rightarrow> (Inl (Raised ''AttributeError''), s2)
                 | Some n \<Rightarrow>
                     (Inr (), emit (UI (Warning (''Files Ingested : '' @ str_nat n))) s2)))"

text \<open>One run of the script, lines 131 to 189.\<close>

definition script :: "config \<Rightarrow> 'v ragbase \<Rightarrow> 'v inputs \<Rightarrow> 'v state \<Rightarrow> (error + unit) \<times> 'v state" where
  "script cfg rb inp s =
     (let s1 = init_messages (emits [UI Set_page_config, UI Html_style, UI Markdown_style] s)
      in case messages (session s1) of
           None \<Rightarrow> (Inl (Raised ''AttributeError''), s1)
         | Some ms \<Rightarrow>
             if CONVERSATION_MESSAGES_LIMIT cfg > 0 \<and>
                CONVERSATION_MESSAGES_LIMIT cfg \<le> int (length ms)
             then (Inl StopException, emit (UI (Warning limit_warning)) s1)
             else bind (show_upload_documents cfg rb (now inp) (uploaded_files inp))
                    (\<lambda>chain. bind (show_status_row cfg)
                    (\<lambda>_. bind (show_message_history cfg)
                    (\<lambda>_. show_chat_input cfg rb (choice inp) (prompt inp) chain))) s1)"

text \<open>
  A session: the script runs once per interaction, each run on the state the run before
  left (also when that run halted or raised).
\<close>

fun run_session :: "config \<Rightarrow> 'v ragbase \<Rightarrow> 'v inputs list \<Rightarrow> 'v state \<Rightarrow> 'v state" where
  "run_session cfg rb [] s = s"
| "run_session cfg rb (inp # inps) s = run_session cfg rb inps (snd (script cfg rb inp s))"

definition history :: "'v state \<Rightarrow> message list" where
  "history s = (case messages (session s) of None \<Rightarrow> [] | Some ms \<Rightarrow> ms)"

subsection \<open>Observations on traces\<close>

text \<open>What a computation added to the trace, from the state before and the state after.\<close>

definition new_trace :: "'v state \<Rightarrow> 'v state \<Rightarrow> 'v effect list" where
  "new_trace s s' = drop (length (trace s)) (trace s')"

definition calls_of :: "'v effect list \<Rightarrow> 'v call list" where
  "calls_of tr = [c. Call c \<leftarrow> tr]"

definition uis_of :: "'v effect list \<Rightarrow> ui list" where
  "uis_of tr = [u. UI u \<leftarrow> tr]"

definition markdowns_of :: "'v effect list \<Rightarrow> string list" where
  "markdowns_of tr = [m. UI (Markdown m) \<leftarrow> tr]"

definition session_ids_of :: "'v effect list \<Rightarrow> string list" where
  "session_ids_of tr = [sid. Call (Ask_question c q sid) \<leftarrow> tr]"

fun is_source_effect :: "'v effect \<Rightarrow> bool" where
  "is_source_effect (UI (Expander _)) = True"
| "is_source_effect (UI (Write _)) = True"
| "is_source_effect _ = False"

text \<open>The text fragments and the document lists of a stream, in stream order.\<close>

definition fragments_of :: "event list \<Rightarrow> string list" where
  "fragments_of events = [t. Text t \<leftarrow> events]"

definition doc_lists_of :: "event list \<Rightarrow> document list list" where
  "doc_lists_of events = [ds. Docs ds \<leftarrow> events]"

text \<open>The two type tests of lines 68 and 71.\<close>

fun type_is_str :: "event \<Rightarrow> bool" where
  "type_is_str (Text _) = True"
| "type_is_str _ = False"

fun type_is_list :: "event \<Rightarrow> bool" where
  "type_is_list (Docs _) = True"
| "type_is_list _ = False"

subsection \<open>A concrete installation\<close>

text \<open>
  Collaborators over natural numbers that all return, one whose ingestion raises, two
  configurations and three clock readings, for evaluating the script on concrete inputs.
  The upload writes into a directory of its own and the ingestion writes an index into
  the database directory; neither touches the training-info file.
\<close>

definition demo_side_effect :: "nat call \<Rightarrow> environment \<Rightarrow> environment" where
  "demo_side_effect c env =
     (case c of
        Upload_files files \<Rightarrow>
          env\<lparr>env_dirs := insert [''uploads''] (env_dirs env),
              env_files := (env_files env)([''uploads'', ''list''] \<mapsto> str_nat (length files))\<rparr>
      | Ingest file_paths \<Rightarrow>
          env\<lparr>env_files := (env_files env)([''db'', ''index''] \<mapsto> str_nat file_paths)\<rparr>
      | _ \<Rightarrow> env)"

definition demo_ragbase :: "nat ragbase" where
  "demo_ragbase =
     \<lparr>upload_files = (\<lambda>files. Inr (100 + length files)),
      ingest = (\<lambda>file_paths. Inr (200 + file_paths)),
      create_llm = Inr 7,
      create_retriever = (\<lambda>llm vector_store. Inr (llm + vector_store)),
      create_chain = (\<lambda>llm retriever. Inr (2 * retriever + llm)),
      ask_question = (\<lambda>chain question sid.
        [Text ''Hel'', Docs [\<lparr>page_content = ''p1''\<rparr>], Other_object, Text_subclass ''zz'',
         Text ''lo'', Docs_subclass [\<lparr>page_content = ''p9''\<rparr>],
         Docs [\<lparr>page_content = ''p2''\<rparr>, \<lparr>page_content = ''p3''\<rparr>]]),
      side_effect = demo_side_effect\<rparr>"


definition demo_config :: config where
  "demo_config =
     \<lparr>CONVERSATION_MESSAGES_LIMIT = 3, SHOW_SOURCES = True, DATABASE_DIR = [''db''],
      IMAGES_DIR = [''images''], VERSION = ''1.0''\<rparr>"

definition unlimited_config :: config where
  "unlimited_config = demo_config\<lparr>CONVERSATION_MESSAGES_LIMIT := 0\<rparr>"

definition clock1 :: datetime where
  "clock1 = \<lparr>year = 2024, month = 5, day = 6, hour = 7, minute = 8, second = 9\<rparr>"

definition clock2 :: datetime where
  "clock2 = \<lparr>year = 2024, month = 5, day = 6, hour = 7, minute = 30, second = 0\<rparr>"

definition clock3 :: datetime where
  "clock3 = \<lparr>year = 2024, month = 5, day = 6, hour = 8, minute = 0, second = 45\<rparr>"

definition fresh_state :: "nat state" where
  "fresh_state =
     \<lparr>session = \<lparr>messages = None, last_trained = None, files_ingested = None\<rparr>,
      fs_dirs = {}, fs_files = Map.empty, cache = Map.empty, trace = []\<rparr>"

definition greeted_state :: "nat state" where
  "greeted_state =
     fresh_state\<lparr>session := \<lparr>messages = Some [greeting], last_trained = None,
                                files_ingested = None\<rparr>\<rparr>"

text \<open>Some collaborator calls performed one after the other.\<close>

fun perform_all :: "'v ragbase \<Rightarrow> 'v call list \<Rightarrow> 'v state \<Rightarrow> 'v state" where
  "perform_all rb [] s = s"
| "perform_all rb (c # cs) s = perform_all rb cs (perform rb c s)"

text \<open>
  The environment after some calls had their side effects one after the other, and the
  environment in which the first collaborator of a training is called: the one before the
  training, with the database directory, the new timestamp and count, and the
  training-info file.
\<close>

fun side_effects :: "'v ragbase \<Rightarrow> 'v call list \<Rightarrow> environment \<Rightarrow> environment" where
  "side_effects rb [] env = env"
| "side_effects rb (c # cs) env = side_effects rb cs (side_effect rb c env)"

definition recorded :: "config \<Rightarrow> datetime \<Rightarrow> 'v list \<Rightarrow> environment \<Rightarrow> environment" where
  "recorded cfg t files env =
     \<lparr>env_last_trained = Some (strftime t), env_files_ingested = Some (length files),
      env_dirs = insert (DATABASE_DIR cfg) (env_dirs env),
      env_files = (env_files env)(training_info_path cfg \<mapsto>
                     training_info_text (strftime t) (length files))\<rparr>"

text \<open>
  Frame conditions on the collaborators: no call changes the content of the training-info
  file, and no call changes the training record (that file and the two session
  attributes).
\<close>

definition keeps_training_file :: "config \<Rightarrow> 'v ragbase \<Rightarrow> bool" where
  "keeps_training_file cfg rb =
     (\<forall>c env. env_files (side_effect rb c env) (training_info_path cfg) =
                env_files env (training_info_path cfg))"

definition keeps_training_record :: "config \<Rightarrow> 'v ragbase \<Rightarrow> bool" where
  "keeps_training_record cfg rb =
     (\<forall>c env. env_files (side_effect rb c env) (training_info_path cfg) =
                env_files env (training_info_path cfg) \<and>
              env_last_trained (side_effect rb c env) = env_last_trained env \<and>
              env_files_ingested (side_effect rb c env) = env_files_ingested env)"

text \<open>
  A collaborator installation that breaks the frame: its ingestion clears the database
  directory of its files before it builds the index.
\<close>

definition wiping_ragbase :: "nat ragbase" where
  "wiping_ragbase =
     demo_ragbase\<lparr>side_effect := (\<lambda>c env.
        case c of
          Ingest file_paths \<Rightarrow> env\<lparr>env_files := [[''db'', ''index''] \<mapsto> ''vectors'']\<rparr>
        | _ \<Rightarrow> env)\<rparr>"

text \<open>Lines 39 to 49 as effects: what \<open>record_training\<close> adds to the trace.\<close>

definition bookkeeping :: "config \<Rightarrow> datetime \<Rightarrow> 'v list \<Rightarrow> 'v effect list" where
  "bookkeeping cfg t files =
     [Makedirs (DATABASE_DIR cfg), Set_last_trained (strftime t),
      Set_files_ingested (length files),
      Write_file (training_info_path cfg) (training_info_text (strftime t) (length files))]"

text \<open>The state after a first training on one file, and after a second on two others.\<close>

definition trained_once :: "nat state" where
  "trained_once = snd (build_qa_chain demo_config demo_ragbase clock1 [1] fresh_state)"

definition trained_twice :: "nat state" where
  "trained_twice = snd (build_qa_chain demo_config demo_ragbase clock2 [2, 3] trained_once)"

text \<open>
  What \<open>ask_chain\<close> adds to the trace before it appends the assistant message, for the
  stream it received: the chat bubble, the placeholder, the status line, the call of
  \<open>ask_question\<close>, one \<^verbatim>\<open>markdown\<close> per text fragment with the response so far, and the
  sources when they are shown.
\<close>

definition stream_effects :: "config \<Rightarrow> nat \<Rightarrow> string \<Rightarrow> 'v \<Rightarrow> event list \<Rightarrow> 'v effect list" where
  "stream_effects cfg ch question chain events =
     [UI (Chat_message ''assistant'' (assistant_avatar cfg)), UI St_empty,
      UI (Status (random_choice ch LOADING_MESSAGES)),
      Call (Ask_question chain question session_id)] @
     map (\<lambda>p. UI (Markdown (concat p))) (tl (prefixes (fragments_of events))) @
     (if SHOW_SOURCES cfg then show_sources (concat (doc_lists_of events)) else [])"

text \<open>What the upload handler shows before it looks at the uploaded files (lines 82 to 89).\<close>

definition upload_form :: "'v effect list" where
  "upload_form =
     [UI St_empty,
      UI (Title (''Document Ingestion Portal '' @ emoji_folder)),
      UI (Header (''VectorDB for VS-GPT '' @ emoji_vs @ emoji_robot)),
      UI (Subheader ''Upload your documents to create the knowledge base''),
      UI File_uploader]"

text \<open>
  A later state advances an earlier one when the earlier trace and the earlier message
  history are prefixes of the later ones.
\<close>

definition advances :: "'v state \<Rightarrow> 'v state \<Rightarrow> bool" where
  "advances s s' = (prefix (trace s) (trace s') \<and> prefix (history s) (history s'))"

text \<open>The inputs of a run in which one file is uploaded and a question is asked.\<close>

definition demo_inputs :: "nat inputs" where
  "demo_inputs = \<lparr>now = clock1, choice = 3, uploaded_files = Some [1], prompt = Some ''hi''\<rparr>"

section \<open>Formatting facts\<close>

lemma digit_char_not_newline: "d < 10 \<Longrightarrow> digit_char d \<noteq> newline"
proof -
  assume "d < 10"
  then have "d \<in> {0, 1, 2, 3, 4, 5, 6, 7, 8, 9}" by auto
  then show ?thesis by (auto simp: digit_char_def newline_def)
qed

lemma str_nat_no_newline: "newline \<notin> set (str_nat n)"
proof (induction n rule: str_nat.induct)
  case (1 n)
  show ?case
  proof (cases "n < 10")
    case True
    then show ?thesis using digit_char_not_newline [of n] by (subst str_nat.simps) auto
  next
    case False
    have "n mod 10 < 10" by simp
    then have "digit_char (n mod 10) \<noteq> newline" by (rule digit_char_not_newline)
    with False 1 show ?thesis by (subst str_nat.simps) auto
  qed
qed

lemma zero_pad_no_newline: "newline \<notin> set x \<Longrightarrow> newline \<notin> set (zero_pad w x)"
  by (auto simp: zero_pad_def newline_def)

lemma strftime_no_newline: "newline \<notin> set (strftime t)"
  unfolding strftime_def
  using zero_pad_no_newline [OF str_nat_no_newline]
  by (auto simp: newline_def)

lemma lines_from_line:
  "newline \<notin> set a \<Longrightarrow> lines_from cur (a @ newline # rest) = (cur @ a) # lines_from [] rest"
  by (induction a arbitrary: cur) auto

lemma text_lines_training_info:
  assumes "newline \<notin> set ts"
  shows "text_lines (training_info_text ts n) =
           [''Last Trained: '' @ ts, ''Files Ingested: '' @ str_nat n]"
proof -
  have a: "newline \<notin> set (''Last Trained: '' @ ts)"
    using assms by (auto simp: newline_def)
  have b: "newline \<notin> set (''Files Ingested: '' @ str_nat n)"
    using str_nat_no_newline [of n] by (auto simp: newline_def)
  have "training_info_text ts n =
          (''Last Trained: '' @ ts) @ newline # ((''Files Ingested: '' @ str_nat n) @ newline # [])"
    by (simp add: training_info_text_def)
  then show ?thesis
    unfolding text_lines_def
    by (simp only: lines_from_line [OF a] lines_from_line [OF b]) simp
qed



section \<open>Traces and the bookkeeping of \<^verbatim>\<open>build_qa_chain\<close>\<close>

lemma new_trace_emits [simp]: "new_trace s (emits es s) = es"
  by (simp add: new_trace_def emits_def)

lemma new_trace_same [simp]: "new_trace s s = []"
  by (simp add: new_trace_def)

lemma calls_of_Nil [simp]: "calls_of [] = []"
  by (simp add: calls_of_def)

lemma calls_of_Call [simp]: "calls_of (Call c # tr) = c # calls_of tr"
  by (simp add: calls_of_def)

lemma calls_of_map_Call [simp]: "calls_of (map Call cs) = cs"
  by (induction cs) simp_all

lemma calls_of_append [simp]: "calls_of (a @ b) = calls_of a @ calls_of b"
  by (simp add: calls_of_def)

lemma emits_emits [simp]: "emits b (emits a s) = emits (a @ b) s"
  by (simp add: emits_def)

lemma emit_emits: "emit e s = emits [e] s"
  by (simp add: emit_def emits_def)

lemma emits_fields [simp]:
  "session (emits es s) = session s" "fs_files (emits es s) = fs_files s"
  "fs_dirs (emits es s) = fs_dirs s" "cache (emits es s) = cache s"
  "trace (emits es s) = trace s @ es"
  by (simp_all add: emits_def)

lemma environment_of_emits [simp]: "environment_of (emits es s) = environment_of s"
  by (simp add: environment_of_def)

lemma put_environment_fields [simp]:
  "messages (session (put_environment env s)) = messages (session s)"
  "last_trained (session (put_environment env s)) = env_last_trained env"
  "files_ingested (session (put_environment env s)) = env_files_ingested env"
  "fs_files (put_environment env s) = env_files env"
  "fs_dirs (put_environment env s) = env_dirs env"
  "cache (put_environment env s) = cache s"
  "trace (put_environment env s) = trace s"
  "environment_of (put_environment env s) = env"
  by (simp_all add: put_environment_def environment_of_def)

lemma perform_fields [simp]:
  "messages (session (perform rb c s)) = messages (session s)"
  "cache (perform rb c s) = cache s"
  "trace (perform rb c s) = trace s @ [Call c]"
  "environment_of (perform rb c s) = side_effect rb c (environment_of s)"
  by (simp_all add: perform_def emit_emits)

lemma perform_all_fields [simp]:
  "messages (session (perform_all rb cs s)) = messages (session s)"
  "cache (perform_all rb cs s) = cache s"
  "trace (perform_all rb cs s) = trace s @ map Call cs"
  "environment_of (perform_all rb cs s) = side_effects rb cs (environment_of s)"
  by (induction cs arbitrary: s) simp_all

lemma environment_fields:
  "fs_files s = env_files (environment_of s)"
  "fs_dirs s = env_dirs (environment_of s)"
  "last_trained (session s) = env_last_trained (environment_of s)"
  "files_ingested (session s) = env_files_ingested (environment_of s)"
  by (simp_all add: environment_of_def)

lemma record_training_eq:
  "record_training cfg t files s =
     emits (bookkeeping cfg t files)
       (s\<lparr>fs_dirs := insert (DATABASE_DIR cfg) (fs_dirs s),
          session := (session s)\<lparr>last_trained := Some (strftime t),
                                  files_ingested := Some (length files)\<rparr>,
          fs_files := (fs_files s)(training_info_path cfg \<mapsto>
                         training_info_text (strftime t) (length files))\<rparr>)"
  by (simp add: record_training_def bookkeeping_def makedirs_def set_last_trained_def
      set_files_ingested_def write_file_def emit_def emits_def Let_def)

lemma record_training_fields [simp]:
  "messages (session (record_training cfg t files s)) = messages (session s)"
  "cache (record_training cfg t files s) = cache s"
  "trace (record_training cfg t files s) = trace s @ bookkeeping cfg t files"
  "environment_of (record_training cfg t files s) = recorded cfg t files (environment_of s)"
  by (simp_all add: record_training_eq environment_of_def recorded_def)

lemma run_pipeline_calls:
  "\<exists>cs. cs \<noteq> [] \<and> snd (run_pipeline rb files s) = perform_all rb cs s"
  unfolding run_pipeline_def bind_def invoke_def
  apply (simp split: sum.splits prod.splits)
  apply (intro conjI allI impI)
      apply (rule exI [of _ "[_]"], simp)
     apply (rule exI [of _ "[_, _]"], simp)
    apply (rule exI [of _ "[_, _, _]"], simp)
   apply (rule exI [of _ "[_, _, _, _]"], simp)
  apply (rule exI [of _ "[_, _, _, _, _]"], simp)
  done

lemma build_qa_chain_hit:
  "cache s files = Some chain \<Longrightarrow> build_qa_chain cfg rb t files s = (Inr chain, s)"
  by (simp add: build_qa_chain_def)

lemma body_state:
  "\<exists>cs. cs \<noteq> [] \<and>
     snd (build_qa_chain_body cfg rb t files s) =
       perform_all rb cs (record_training cfg t files s)"
  unfolding build_qa_chain_body_def by (rule run_pipeline_calls)

lemma build_qa_chain_miss_state:
  assumes "cache s files = None"
  shows "\<exists>cs c. cs \<noteq> [] \<and>
           snd (build_qa_chain cfg rb t files s) =
             (perform_all rb cs (record_training cfg t files s))\<lparr>cache := c\<rparr>"
proof -
  obtain cs where cs: "cs \<noteq> []"
    "snd (build_qa_chain_body cfg rb t files s) =
       perform_all rb cs (record_training cfg t files s)"
    using body_state by blast
  show ?thesis
  proof (cases "build_qa_chain_body cfg rb t files s")
    case (Pair r s')
    with cs have s': "s' = perform_all rb cs (record_training cfg t files s)" by simp
    show ?thesis
    proof (cases r)
      case (Inl e)
      with Pair assms have "snd (build_qa_chain cfg rb t files s) = s'\<lparr>cache := cache s'\<rparr>"
        by (simp add: build_qa_chain_def)
      with cs(1) s' show ?thesis by blast
    next
      case (Inr chain)
      with Pair assms have
        "snd (build_qa_chain cfg rb t files s) = s'\<lparr>cache := (cache s')(files \<mapsto> chain)\<rparr>"
        by (simp add: build_qa_chain_def)
      with cs(1) s' show ?thesis by blast
    qed
  qed
qed

lemma cache_update_fields [simp]:
  "trace (s\<lparr>cache := c\<rparr>) = trace s" "session (s\<lparr>cache := c\<rparr>) = session s"
  "environment_of (s\<lparr>cache := c\<rparr>) = environment_of s"
  by (simp_all add: environment_of_def)

lemma build_qa_chain_miss_shape:
  assumes "cache s files = None"
  shows "\<exists>cs. cs \<noteq> [] \<and>
           new_trace s (snd (build_qa_chain cfg rb t files s)) =
             bookkeeping cfg t files @ map Call cs \<and>
           environment_of (snd (build_qa_chain cfg rb t files s)) =
             side_effects rb cs (recorded cfg t files (environment_of s)) \<and>
           messages (session (snd (build_qa_chain cfg rb t files s))) = messages (session s)"
proof -
  obtain cs c where cs: "cs \<noteq> []"
    "snd (build_qa_chain cfg rb t files s) =
       (perform_all rb cs (record_training cfg t files s))\<lparr>cache := c\<rparr>"
    using build_qa_chain_miss_state [OF assms] by blast
  have "new_trace s (snd (build_qa_chain cfg rb t files s)) =
          bookkeeping cfg t files @ map Call cs"
    by (simp add: cs(2) new_trace_def)
  moreover have "environment_of (snd (build_qa_chain cfg rb t files s)) =
             side_effects rb cs (recorded cfg t files (environment_of s))"
    by (simp add: cs(2))
  moreover have "messages (session (snd (build_qa_chain cfg rb t files s))) =
             messages (session s)"
    by (simp add: cs(2))
  ultimately show ?thesis using cs(1) by blast
qed

lemma side_effects_keep_file:
  "keeps_training_file cfg rb \<Longrightarrow>
   env_files (side_effects rb cs env) (training_info_path cfg) =
     env_files env (training_info_path cfg)"
  by (induction cs arbitrary: env) (simp_all add: keeps_training_file_def)


lemma length_bookkeeping [simp]: "length (bookkeeping cfg t files) = 4"
  by (simp add: bookkeeping_def)

lemma calls_of_bookkeeping [simp]: "calls_of (bookkeeping cfg t files) = []"
  by (simp add: bookkeeping_def calls_of_def)

lemma write_in_bookkeeping:
  "Write_file (training_info_path cfg) (training_info_text (strftime t) (length files))
     \<in> set (bookkeeping cfg t files)"
  by (simp add: bookkeeping_def)


text \<open>
  Claim C1, as amended. A call of \<open>build_qa_chain\<close> whose argument has no entry in the
  memo of \<^verbatim>\<open>st.cache_resource\<close> runs the body: it writes to the file
  \<^verbatim>\<open>training_info.txt\<close> of the database directory exactly two lines, in this order:
  \<^verbatim>\<open>Last Trained: \<close> with the timestamp taken at the start of the call and
  \<^verbatim>\<open>Files Ingested: \<close> with the length of the list of files. The collaborators run after
  the write; provided that no collaborator call changes the content of that file, the
  file holds exactly these two lines after the call, whether or not a collaborator
  raises. A call whose argument has an entry in the memo changes nothing, so the file
  stays as it was.
\<close>

theorem build_qa_chain_training_info:
  "(cache s files = None \<longrightarrow>
      Write_file (training_info_path cfg) (training_info_text (strftime t) (length files))
        \<in> set (new_trace s (snd (build_qa_chain cfg rb t files s))) \<and>
      text_lines (training_info_text (strftime t) (length files)) =
        [''Last Trained: '' @ strftime t, ''Files Ingested: '' @ str_nat (length files)]) \<and>
   (cache s files = None \<and> keeps_training_file cfg rb \<longrightarrow>
      map_option text_lines
        (fs_files (snd (build_qa_chain cfg rb t files s)) (training_info_path cfg)) =
      Some [''Last Trained: '' @ strftime t, ''Files Ingested: '' @ str_nat (length files)]) \<and>
   (cache s files \<noteq> None \<longrightarrow> snd (build_qa_chain cfg rb t files s) = s)"
proof (intro conjI impI)
  assume miss: "cache s files = None"
  obtain cs where
    "new_trace s (snd (build_qa_chain cfg rb t files s)) =
       bookkeeping cfg t files @ map Call cs"
    using build_qa_chain_miss_shape [OF miss] by blast
  then show "Write_file (training_info_path cfg)
        (training_info_text (strftime t) (length files))
        \<in> set (new_trace s (snd (build_qa_chain cfg rb t files s)))"
    using write_in_bookkeeping [of cfg t files] by simp
next
  show "text_lines (training_info_text (strftime t) (length files)) =
        [''Last Trained: '' @ strftime t, ''Files Ingested: '' @ str_nat (length files)]"
    by (rule text_lines_training_info [OF strftime_no_newline])
next
  assume "cache s files = None \<and> keeps_training_file cfg rb"
  then have miss: "cache s files = None" and frame: "keeps_training_file cfg rb"
    by simp_all
  obtain cs where
    "environment_of (snd (build_qa_chain cfg rb t files s)) =
       side_effects rb cs (recorded cfg t files (environment_of s))"
    using build_qa_chain_miss_shape [OF miss] by blast
  then have "fs_files (snd (build_qa_chain cfg rb t files s)) (training_info_path cfg) =
      env_files (recorded cfg t files (environment_of s)) (training_info_path cfg)"
    by (simp add: environment_fields(1) side_effects_keep_file [OF frame])
  then have "fs_files (snd (build_qa_chain cfg rb t files s)) (training_info_path cfg) =
               Some (training_info_text (strftime t) (length files))"
    by (simp add: recorded_def)
  then show "map_option text_lines
        (fs_files (snd (build_qa_chain cfg rb t files s)) (training_info_path cfg)) =
      Some [''Last Trained: '' @ strftime t, ''Files Ingested: '' @ str_nat (length files)]"
    by (simp add: text_lines_training_info [OF strftime_no_newline])
next
  assume "cache s files \<noteq> None"
  then show "snd (build_qa_chain cfg rb t files s) = s"
    by (auto simp: build_qa_chain_hit)
qed


text \<open>
  Claim C6, as amended. For a list of files with no entry in the memo, when each
  collaborator returns, \<open>build_qa_chain\<close> invokes \<open>upload_files\<close> on the files, then
  \<open>ingest\<close> on the returned file paths, then \<open>create_llm\<close>, then \<open>create_retriever\<close> on
  the llm and the vector store, then \<open>create_chain\<close> on the llm and the retriever, calls
  no collaborator besides, and returns the value that \<open>create_chain\<close> returned. For a
  list with an entry in the memo it invokes no collaborator and returns the stored value.
\<close>

theorem build_qa_chain_pipeline:
  "(cache s files = None \<and> upload_files rb files = Inr file_paths \<and>
    ingest rb file_paths = Inr vector_store \<and> create_llm rb = Inr llm \<and>
    create_retriever rb llm vector_store = Inr retriever \<and>
    create_chain rb llm retriever = Inr chain \<longrightarrow>
      fst (build_qa_chain cfg rb t files s) = Inr chain \<and>
      calls_of (new_trace s (snd (build_qa_chain cfg rb t files s))) =
        [Upload_files files, Ingest file_paths, Create_llm,
         Create_retriever llm vector_store, Create_chain llm retriever]) \<and>
   (cache s files = Some cached \<longrightarrow>
      fst (build_qa_chain cfg rb t files s) = Inr cached \<and>
      calls_of (new_trace s (snd (build_qa_chain cfg rb t files s))) = [])"
  by (simp add: build_qa_chain_def build_qa_chain_body_def run_pipeline_def bind_def
      invoke_def new_trace_def)

lemmas demo_simps =
  demo_config_def demo_ragbase_def demo_side_effect_def fresh_state_def clock1_def clock2_def
  clock3_def build_qa_chain_def build_qa_chain_body_def run_pipeline_def bind_def invoke_def
  perform_def put_environment_def environment_of_def record_training_eq bookkeeping_def
  emit_emits emits_def training_info_path_def training_info_text_def strftime_def
  zero_pad_def digit_char_def str_nat.simps

lemma demo_keeps_training_record: "keeps_training_record demo_config demo_ragbase"
  by (simp add: keeps_training_record_def demo_ragbase_def demo_side_effect_def
      demo_config_def training_info_path_def split: call.splits)


lemma demo_keeps_training_file: "keeps_training_file demo_config demo_ragbase"
  using demo_keeps_training_record
  by (simp add: keeps_training_record_def keeps_training_file_def)

text \<open>
  The frame condition is needed: after a training with an ingestion that clears the
  database directory, the training-info file is gone, although the script wrote it.
\<close>

lemma training_file_wiped_without_frame:
  "cache fresh_state [1] = None \<and>
   Write_file [''db'', ''training_info.txt'']
     (''Last Trained: 2024-05-06 07:08:09'' @ [newline] @ ''Files Ingested: 1'' @ [newline])
     \<in> set (trace (snd (build_qa_chain demo_config wiping_ragbase clock1 [1] fresh_state))) \<and>
   fs_files (snd (build_qa_chain demo_config wiping_ragbase clock1 [1] fresh_state))
     (training_info_path demo_config) = None"
  by (simp add: demo_simps wiping_ragbase_def)

text \<open>
  The theorem at a first call (a miss, with collaborators that write their own files) and
  at a repeated call (a hit).
\<close>

theorem build_qa_chain_training_info_witness:
  "(cache fresh_state [1] = None \<and> keeps_training_file demo_config demo_ragbase \<and>
      map_option text_lines
        (fs_files (snd (build_qa_chain demo_config demo_ragbase clock1 [1] fresh_state))
           (training_info_path demo_config)) =
      Some [''Last Trained: 2024-05-06 07:08:09'', ''Files Ingested: 1''] \<and>
      fs_files (snd (build_qa_chain demo_config demo_ragbase clock1 [1] fresh_state))
        [''db'', ''index''] = Some ''101'') \<and>
   (cache trained_once [1] \<noteq> None \<and>
      snd (build_qa_chain demo_config demo_ragbase clock2 [1] trained_once) = trained_once)"
proof -
  have a: "cache fresh_state [1::nat] = None" by (simp add: fresh_state_def)
  have b: "cache trained_once [1] \<noteq> None"
    unfolding trained_once_def by (simp add: demo_simps)
  have c: "strftime clock1 = ''2024-05-06 07:08:09''" "str_nat (length [1::nat]) = ''1''"
    by (simp_all add: demo_simps)
  have d: "fs_files (snd (build_qa_chain demo_config demo_ragbase clock1 [1] fresh_state))
        [''db'', ''index''] = Some ''101''"
    by (simp add: demo_simps)
  show ?thesis
    using a b c d demo_keeps_training_file
      build_qa_chain_training_info [where s = fresh_state and files = "[1]" and
        cfg = demo_config and t = clock1 and rb = demo_ragbase]
      build_qa_chain_training_info [where s = trained_once and files = "[1]" and
        cfg = demo_config and t = clock2 and rb = demo_ragbase]
    by simp
qed

text \<open>
  Claim C1 as stated fails: after a training on \<open>[1]\<close> and a training on \<open>[2, 3]\<close>, a
  third call on \<open>[1]\<close> is answered from the memo, and the file still shows the
  timestamp and the count of the second call, not the clock of the third call and the
  count 1.
\<close>

theorem build_qa_chain_cached_counterexample:
  "map_option text_lines
     (fs_files (snd (build_qa_chain demo_config demo_ragbase clock3 [1] trained_twice))
        (training_info_path demo_config)) =
   Some [''Last Trained: 2024-05-06 07:30:00'', ''Files Ingested: 2''] \<and>
   map_option text_lines
     (fs_files (snd (build_qa_chain demo_config demo_ragbase clock3 [1] trained_twice))
        (training_info_path demo_config)) \<noteq>
   Some [''Last Trained: '' @ strftime clock3, ''Files Ingested: '' @ str_nat (length [1::nat])]"
  unfolding trained_twice_def trained_once_def
  by (simp add: demo_simps text_lines_def newline_def)

text \<open>
  Claim C6 as stated fails: a repeated call on the non-empty list \<open>[1]\<close> returns the
  stored chain and invokes no collaborator.
\<close>

theorem build_qa_chain_no_calls_counterexample:
  "[1::nat] \<noteq> [] \<and>
   fst (build_qa_chain demo_config demo_ragbase clock2 [1] trained_once) = Inr 623 \<and>
   calls_of (new_trace trained_once
      (snd (build_qa_chain demo_config demo_ragbase clock2 [1] trained_once))) = []"
  unfolding trained_once_def
  by (simp add: demo_simps new_trace_def calls_of_def)


text \<open>The theorem at a first call and at a repeated call.\<close>

theorem build_qa_chain_pipeline_witness:
  "fst (build_qa_chain demo_config demo_ragbase clock1 [1] fresh_state) = Inr 623 \<and>
   calls_of (new_trace fresh_state
      (snd (build_qa_chain demo_config demo_ragbase clock1 [1] fresh_state))) =
     [Upload_files [1], Ingest 101, Create_llm, Create_retriever 7 301, Create_chain 7 308] \<and>
   create_chain demo_ragbase 7 308 = Inr 623 \<and>
   cache trained_once [1] = Some 623 \<and>
   fst (build_qa_chain demo_config demo_ragbase clock2 [1] trained_once) = Inr 623 \<and>
   calls_of (new_trace trained_once
      (snd (build_qa_chain demo_config demo_ragbase clock2 [1] trained_once))) = []"
proof -
  have a: "cache fresh_state [1::nat] = None" "upload_files demo_ragbase [1] = Inr 101"
    "ingest demo_ragbase 101 = Inr 301" "create_llm demo_ragbase = Inr 7"
    "create_retriever demo_ragbase 7 301 = Inr 308" "create_chain demo_ragbase 7 308 = Inr 623"
    by (simp_all add: fresh_state_def demo_ragbase_def)
  have b: "cache trained_once [1] = Some 623"
    unfolding trained_once_def by (simp add: demo_simps)
  show ?thesis
    using a b
      build_qa_chain_pipeline [of fresh_state "[1]" demo_ragbase 101 301 7 308 623
        demo_config clock1]
      build_qa_chain_pipeline [of trained_once "[1]" demo_ragbase _ _ _ _ _ demo_config clock2 623]
    by simp
qed

section \<open>The stream loop of \<^verbatim>\<open>ask_chain\<close>\<close>

lemma fragments_of_simps [simp]:
  "fragments_of [] = []"
  "fragments_of (Text t # events) = t # fragments_of events"
  "fragments_of (Docs ds # events) = fragments_of events"
  "fragments_of (Text_subclass t # events) = fragments_of events"
  "fragments_of (Docs_subclass ds # events) = fragments_of events"
  "fragments_of (Other_object # events) = fragments_of events"
  by (simp_all add: fragments_of_def)

lemma doc_lists_of_simps [simp]:
  "doc_lists_of [] = []"
  "doc_lists_of (Text t # events) = doc_lists_of events"
  "doc_lists_of (Docs ds # events) = ds # doc_lists_of events"
  "doc_lists_of (Text_subclass t # events) = doc_lists_of events"
  "doc_lists_of (Docs_subclass ds # events) = doc_lists_of events"
  "doc_lists_of (Other_object # events) = doc_lists_of events"
  by (simp_all add: doc_lists_of_def)

lemma map_prefixes_split: "map f (prefixes xs) = f [] # map f (tl (prefixes xs))"
  by (cases xs) simp_all

lemma running_Cons:
  "map (\<lambda>p. UI (Markdown (fr @ concat p))) (tl (prefixes (t # frs))) =
     UI (Markdown (fr @ t)) # map (\<lambda>p. UI (Markdown ((fr @ t) @ concat p))) (tl (prefixes frs))"
proof -
  have "map (\<lambda>p. UI (Markdown (fr @ concat p))) (tl (prefixes (t # frs))) =
          map (\<lambda>p. UI (Markdown ((fr @ t) @ concat p))) (prefixes frs)"
    by (simp add: comp_def)
  also have "\<dots> = UI (Markdown ((fr @ t) @ concat [])) #
                    map (\<lambda>p. UI (Markdown ((fr @ t) @ concat p))) (tl (prefixes frs))"
    by (rule map_prefixes_split)
  finally show ?thesis by simp
qed

lemma consume_stream_eq:
  "consume_stream events fr docs s =
     (fr @ concat (fragments_of events), docs @ concat (doc_lists_of events),
      emits (map (\<lambda>p. UI (Markdown (fr @ concat p))) (tl (prefixes (fragments_of events)))) s)"
proof (induction events arbitrary: fr docs s)
  case Nil
  show ?case by (simp add: emits_def)
next
  case (Cons ev events)
  show ?case
  proof (cases ev)
    case (Text t)
    then show ?thesis
      by (simp add: running_Cons Cons.IH emit_emits emits_def del: prefixes.simps)
  qed (simp_all add: Cons.IH)
qed

lemma ask_chain_eq:
  "ask_chain cfg rb ch question chain s =
     append_message \<lparr>role = ''assistant'',
                     content = concat (fragments_of (ask_question rb chain question session_id))\<rparr>
       (emits (stream_effects cfg ch question chain (ask_question rb chain question session_id)) s)"
  by (simp add: ask_chain_def consume_stream_eq stream_effects_def Let_def)

lemma append_message_Some:
  "messages (session s) = Some ms \<Longrightarrow>
   append_message m s =
     (Inr (), emits [Append_message m] (s\<lparr>session := (session s)\<lparr>messages := Some (ms @ [m])\<rparr>\<rparr>))"
  by (simp add: append_message_def emit_emits)

lemma append_message_None:
  "messages (session s) = None \<Longrightarrow> append_message m s = (Inl (Raised ''AttributeError''), s)"
  by (simp add: append_message_def)

lemma markdowns_of_show_sources_from:
  "markdowns_of (concat (map (\<lambda>(i, doc). [UI (Expander (''Source #'' @ str_nat (i + 1))),
                               UI (Write (page_content doc))]) (enumerate n docs))) = []"
  by (induction docs arbitrary: n) (simp_all add: markdowns_of_def)

lemma markdowns_of_show_sources [simp]: "markdowns_of (show_sources docs) = []"
  unfolding show_sources_def by (rule markdowns_of_show_sources_from)

lemma markdowns_of_Nil: "markdowns_of [] = []"
  by (simp add: markdowns_of_def)

lemma markdowns_of_append [simp]: "markdowns_of (a @ b) = markdowns_of a @ markdowns_of b"
  by (simp add: markdowns_of_def)

lemma markdowns_of_map [simp]: "markdowns_of (map (\<lambda>p. UI (Markdown (f p))) ps) = map f ps"
  by (induction ps) (simp_all add: markdowns_of_def)

lemma markdowns_of_stream_effects:
  "markdowns_of (stream_effects cfg ch question chain events) =
     map concat (tl (prefixes (fragments_of events)))"
proof -
  have a: "markdowns_of
     [UI (Chat_message ''assistant'' (assistant_avatar cfg)), UI St_empty,
      UI (Status (random_choice ch LOADING_MESSAGES)),
      Call (Ask_question chain question session_id)] = []"
    by (simp add: markdowns_of_def)
  have b: "markdowns_of
     (if SHOW_SOURCES cfg then show_sources (concat (doc_lists_of events)) else []) = []"
    by (cases "SHOW_SOURCES cfg") (simp_all add: markdowns_of_Nil)
  show ?thesis
    unfolding stream_effects_def markdowns_of_append a b
    by (simp only: markdowns_of_map append_Nil append_Nil2)
qed

lemma running_nonempty: "frs \<noteq> [] \<Longrightarrow> tl (prefixes frs) \<noteq> []"
  by (cases frs) simp_all

lemma last_running: "frs \<noteq> [] \<Longrightarrow> last (map concat (tl (prefixes frs))) = concat frs"
proof -
  assume ne: "frs \<noteq> []"
  have ne': "tl (prefixes frs) \<noteq> []" using ne by (rule running_nonempty)
  have "last (tl (prefixes frs)) = last (prefixes frs)"
    using ne' by (simp add: last_tl)
  then have "last (tl (prefixes frs)) = frs" by simp
  then show ?thesis using ne' by (simp add: last_map)
qed

text \<open>
  Claim C4. For every finite stream of events that \<open>ask_question\<close> yields, when the
  message history exists, \<open>ask_chain\<close> returns and appends to the history one assistant
  message whose content is the concatenation, in stream order, of the strings of exactly
  those events whose type is \<^verbatim>\<open>str\<close>. The placeholder shows the responses so far, one
  per such event, so the last string shown is that same full response (and nothing is
  shown when the stream has no such event).
\<close>

theorem ask_chain_full_response:
  assumes "messages (session s) = Some ms"
  shows "fst (ask_chain cfg rb ch question chain s) = Inr () \<and>
         messages (session (snd (ask_chain cfg rb ch question chain s))) =
           Some (ms @ [\<lparr>role = ''assistant'',
                        content = concat (fragments_of (ask_question rb chain question session_id))\<rparr>]) \<and>
         markdowns_of (new_trace s (snd (ask_chain cfg rb ch question chain s))) =
           map concat (tl (prefixes (fragments_of (ask_question rb chain question session_id)))) \<and>
         (if fragments_of (ask_question rb chain question session_id) = []
          then markdowns_of (new_trace s (snd (ask_chain cfg rb ch question chain s))) = []
          else last (markdowns_of (new_trace s (snd (ask_chain cfg rb ch question chain s)))) =
               concat (fragments_of (ask_question rb chain question session_id)))"
proof -
  let ?events = "ask_question rb chain question session_id"
  let ?m = "\<lparr>role = ''assistant'', content = concat (fragments_of ?events)\<rparr>"
  let ?s1 = "emits (stream_effects cfg ch question chain ?events) s"
  have m1: "messages (session ?s1) = Some ms" using assms by simp
  have eq: "ask_chain cfg rb ch question chain s =
      (Inr (), emits [Append_message ?m]
                 (?s1\<lparr>session := (session ?s1)\<lparr>messages := Some (ms @ [?m])\<rparr>\<rparr>))"
    unfolding ask_chain_eq by (rule append_message_Some [OF m1])
  have tr: "new_trace s (snd (ask_chain cfg rb ch question chain s)) =
      stream_effects cfg ch question chain ?events @ [Append_message ?m]"
    by (simp add: eq new_trace_def emits_def)
  have md: "markdowns_of (new_trace s (snd (ask_chain cfg rb ch question chain s))) =
      map concat (tl (prefixes (fragments_of ?events)))"
  proof -
    have "markdowns_of [Append_message ?m] = ([] :: string list)"
      by (simp add: markdowns_of_def)
    then show ?thesis
      unfolding tr markdowns_of_append markdowns_of_stream_effects by simp
  qed
  show ?thesis
  proof (intro conjI)
    show "fst (ask_chain cfg rb ch question chain s) = Inr ()" by (simp add: eq)
    show "messages (session (snd (ask_chain cfg rb ch question chain s))) = Some (ms @ [?m])"
      by (simp add: eq emits_def)
    show "markdowns_of (new_trace s (snd (ask_chain cfg rb ch question chain s))) =
      map concat (tl (prefixes (fragments_of ?events)))" by (rule md)
    show "if fragments_of ?events = []
          then markdowns_of (new_trace s (snd (ask_chain cfg rb ch question chain s))) = []
          else last (markdowns_of (new_trace s (snd (ask_chain cfg rb ch question chain s)))) =
               concat (fragments_of ?events)"
    proof (cases "fragments_of ?events = []")
      case True
      then show ?thesis unfolding md by simp
    next
      case False
      then show ?thesis unfolding md by (simp only: last_running [OF False] if_False)
    qed
  qed
qed

lemma ask_chain_trace:
  "new_trace s (snd (ask_chain cfg rb ch question chain s)) =
     stream_effects cfg ch question chain (ask_question rb chain question session_id) @
     (case messages (session s) of
        None \<Rightarrow> []
      | Some ms \<Rightarrow>
          [Append_message \<lparr>role = ''assistant'',
             content = concat (fragments_of (ask_question rb chain question session_id))\<rparr>])"
proof (cases "messages (session s)")
  case None
  then show ?thesis
    by (simp add: ask_chain_eq append_message_None)
next
  case (Some ms)
  then show ?thesis
    by (simp add: ask_chain_eq append_message_Some new_trace_def)
qed

lemma sources_show_sources_from:
  "filter is_source_effect
     (concat (map (\<lambda>(i, doc). [UI (Expander (''Source #'' @ str_nat (i + 1))),
                               UI (Write (page_content doc)) :: 'v effect]) (enumerate n docs))) =
   concat (map (\<lambda>(i, doc). [UI (Expander (''Source #'' @ str_nat (i + 1))),
                               UI (Write (page_content doc))]) (enumerate n docs))"
  by (induction docs arbitrary: n) simp_all

lemma sources_show_sources [simp]:
  "filter is_source_effect (show_sources docs) = show_sources docs"
  unfolding show_sources_def by (rule sources_show_sources_from)

lemma sources_markdowns [simp]:
  "filter is_source_effect (map (\<lambda>p. UI (Markdown (f p))) ps) = []"
  by (induction ps) simp_all

lemma sources_stream_effects:
  "filter is_source_effect (stream_effects cfg ch question chain events) =
     (if SHOW_SOURCES cfg then show_sources (concat (doc_lists_of events)) else [])"
  by (simp add: stream_effects_def)

text \<open>
  Claim C5. For every finite stream of events, the documents that the loop of
  \<open>ask_chain\<close> gathers are the concatenation, in stream order, of the elements of exactly
  those events whose type is \<^verbatim>\<open>list\<close>; and the sources that \<open>ask_chain\<close> displays
  afterwards (when sources are shown) are the expanders of exactly these documents.
\<close>

theorem ask_chain_documents:
  "fst (snd (consume_stream events [] [] s)) = concat (doc_lists_of events) \<and>
   filter is_source_effect (new_trace s (snd (ask_chain cfg rb ch question chain s))) =
     (if SHOW_SOURCES cfg
      then show_sources (concat (doc_lists_of (ask_question rb chain question session_id)))
      else [])"
proof
  show "fst (snd (consume_stream events [] [] s)) = concat (doc_lists_of events)"
    by (simp add: consume_stream_eq)
  show "filter is_source_effect (new_trace s (snd (ask_chain cfg rb ch question chain s))) =
     (if SHOW_SOURCES cfg
      then show_sources (concat (doc_lists_of (ask_question rb chain question session_id)))
      else [])"
    unfolding ask_chain_trace filter_append sources_stream_effects
    by (cases "messages (session s)") simp_all
qed

lemma session_ids_of_Nil: "session_ids_of [] = []"
  by (simp add: session_ids_of_def)

lemma session_ids_of_append [simp]:
  "session_ids_of (a @ b) = session_ids_of a @ session_ids_of b"
  by (simp add: session_ids_of_def)

lemma session_ids_of_markdowns [simp]:
  "session_ids_of (map (\<lambda>p. UI (Markdown (f p))) ps) = []"
  by (induction ps) (simp_all add: session_ids_of_def)

lemma session_ids_of_show_sources_from:
  "session_ids_of
     (concat (map (\<lambda>(i, doc). [UI (Expander (''Source #'' @ str_nat (i + 1))),
                               UI (Write (page_content doc))]) (enumerate n docs))) = []"
  by (induction docs arbitrary: n) (simp_all add: session_ids_of_def)

lemma session_ids_of_show_sources [simp]: "session_ids_of (show_sources docs) = []"
  unfolding show_sources_def by (rule session_ids_of_show_sources_from)

lemma session_ids_of_stream_effects:
  "session_ids_of (stream_effects cfg ch question chain events) = [session_id]"
proof -
  have a: "session_ids_of
     [UI (Chat_message ''assistant'' (assistant_avatar cfg)), UI St_empty,
      UI (Status (random_choice ch LOADING_MESSAGES)),
      Call (Ask_question chain question session_id)] = [session_id]"
    by (simp add: session_ids_of_def)
  have b: "session_ids_of
     (if SHOW_SOURCES cfg then show_sources (concat (doc_lists_of events)) else []) = []"
    by (cases "SHOW_SOURCES cfg") (simp_all add: session_ids_of_Nil)
  show ?thesis
    unfolding stream_effects_def session_ids_of_append a b by simp
qed

text \<open>
  Claim C9. Whatever the configuration, the question, the chain and the state, \<open>ask_chain\<close>
  calls \<open>ask_question\<close> once, with the session identifier \<^verbatim>\<open>session-id-42\<close>; it behaves
  as it would with a collaborator that ignores the identifier passed and uses this
  constant.
\<close>

theorem ask_chain_session_id:
  "session_ids_of (new_trace s (snd (ask_chain cfg rb ch question chain s))) =
     [''session-id-42''] \<and>
   ask_chain cfg rb ch question chain s =
     ask_chain cfg (rb\<lparr>ask_question := \<lambda>c q sid. ask_question rb c q ''session-id-42''\<rparr>)
       ch question chain s"
proof
  have "session_ids_of
      (case messages (session s) of
        None \<Rightarrow> []
      | Some ms \<Rightarrow>
          [Append_message \<lparr>role = ''assistant'',
             content = concat (fragments_of (ask_question rb chain question session_id))\<rparr>]) = []"
    by (cases "messages (session s)") (simp_all add: session_ids_of_def)
  then show "session_ids_of (new_trace s (snd (ask_chain cfg rb ch question chain s))) =
     [''session-id-42'']"
    unfolding ask_chain_trace session_ids_of_append session_ids_of_stream_effects
    by (simp add: session_id_def)
  show "ask_chain cfg rb ch question chain s =
     ask_chain cfg (rb\<lparr>ask_question := \<lambda>c q sid. ask_question rb c q ''session-id-42''\<rparr>)
       ch question chain s"
    by (simp add: ask_chain_def session_id_def)
qed

lemma consume_stream_filter:
  "consume_stream [e \<leftarrow> events. type_is_str e \<or> type_is_list e] fr docs s =
     consume_stream events fr docs s"
proof (induction events arbitrary: fr docs s)
  case Nil
  show ?case by simp
next
  case (Cons ev events)
  show ?case by (cases ev) (simp_all add: Cons.IH)
qed

text \<open>
  Claim C10. Events whose type is neither exactly \<^verbatim>\<open>str\<close> nor exactly \<^verbatim>\<open>list\<close>
  (instances of their subclasses included) change nothing: from any response and
  documents so far, the loop gives the same response, documents and state on a stream as
  on that stream with these events removed, and so does \<open>ask_chain\<close>.
\<close>

theorem ask_chain_ignores_other_events:
  "consume_stream [e \<leftarrow> events. type_is_str e \<or> type_is_list e] fr docs s =
     consume_stream events fr docs s \<and>
   ask_chain cfg
     (rb\<lparr>ask_question :=
          \<lambda>c q sid. [e \<leftarrow> ask_question rb c q sid. type_is_str e \<or> type_is_list e]\<rparr>)
     ch question chain s =
   ask_chain cfg rb ch question chain s"
  by (simp add: consume_stream_filter ask_chain_def)

lemma demo_stream:
  "ask_question demo_ragbase chain question sid =
     [Text ''Hel'', Docs [\<lparr>page_content = ''p1''\<rparr>], Other_object, Text_subclass ''zz'',
      Text ''lo'', Docs_subclass [\<lparr>page_content = ''p9''\<rparr>],
      Docs [\<lparr>page_content = ''p2''\<rparr>, \<lparr>page_content = ''p3''\<rparr>]]"
  by (simp add: demo_ragbase_def)

text \<open>The theorem on the demonstration stream, whose text fragments are Hel and lo.\<close>

theorem ask_chain_full_response_witness:
  "messages (session greeted_state) = Some [greeting] \<and>
   fst (ask_chain demo_config demo_ragbase 3 ''hi'' 623 greeted_state) = Inr () \<and>
   messages (session (snd (ask_chain demo_config demo_ragbase 3 ''hi'' 623 greeted_state))) =
     Some [greeting, \<lparr>role = ''assistant'', content = ''Hello''\<rparr>] \<and>
   markdowns_of (new_trace greeted_state
      (snd (ask_chain demo_config demo_ragbase 3 ''hi'' 623 greeted_state))) =
     [''Hel'', ''Hello'']"
proof -
  have m: "messages (session greeted_state) = Some [greeting]"
    by (simp add: greeted_state_def fresh_state_def)
  show ?thesis
    using m ask_chain_full_response [OF m, of demo_config demo_ragbase 3 "''hi''" 623]
    by (simp add: demo_stream)
qed

text \<open>The theorem on the demonstration stream.\<close>

theorem ask_chain_documents_witness:
  "fst (snd (consume_stream (ask_question demo_ragbase 623 ''hi'' session_id) [] [] greeted_state)) =
     [\<lparr>page_content = ''p1''\<rparr>, \<lparr>page_content = ''p2''\<rparr>, \<lparr>page_content = ''p3''\<rparr>] \<and>
   filter is_source_effect (new_trace greeted_state
      (snd (ask_chain demo_config demo_ragbase 3 ''hi'' 623 greeted_state))) =
     [UI (Expander ''Source #1''), UI (Write ''p1''), UI (Expander ''Source #2''),
      UI (Write ''p2''), UI (Expander ''Source #3''), UI (Write ''p3'')]"
  using ask_chain_documents [of "ask_question demo_ragbase 623 ''hi'' session_id" greeted_state
      demo_config demo_ragbase 3 "''hi''" 623]
  by (simp add: demo_stream demo_config_def show_sources_def enumerate_eq_zip upt_rec
      str_nat.simps digit_char_def)

section \<open>The script and its message history\<close>

lemma advances_refl [simp]: "advances s s"
  by (simp add: advances_def)

lemma advances_trans: "advances s s' \<Longrightarrow> advances s' s'' \<Longrightarrow> advances s s''"
  unfolding advances_def by (meson prefix_order.trans)

lemma history_emits [simp]: "history (emits es s) = history s"
  by (simp add: history_def)

lemma advances_emits [simp]: "advances s (emits es s)"
  by (simp add: advances_def)

lemma advances_emit [simp]: "advances s (emit e s)"
  by (simp add: emit_emits)

lemma bind_step:
  assumes "\<And>x s'. advances s' (snd (f x s'))"
  shows "advances (snd (m s)) (snd (bind m f s))"
proof (cases "m s")
  case (Pair r s')
  then show ?thesis
    by (cases r) (simp_all add: bind_def assms)
qed

lemma bind_advances:
  assumes "advances s (snd (m s))" "\<And>x s'. advances s' (snd (f x s'))"
  shows "advances s (snd (bind m f s))"
  using assms(1) bind_step [of f m s, OF assms(2)] by (rule advances_trans)

lemma append_message_advances [simp]: "advances s (snd (append_message m s))"
proof (cases "messages (session s)")
  case None
  then show ?thesis by (simp add: append_message_None)
next
  case (Some ms)
  then show ?thesis
    by (simp add: append_message_Some advances_def history_def)
qed

lemma ask_chain_advances [simp]: "advances s (snd (ask_chain cfg rb ch question chain s))"
  unfolding ask_chain_eq
  by (rule advances_trans [OF advances_emits append_message_advances])

lemma build_qa_chain_advances [simp]: "advances s (snd (build_qa_chain cfg rb t files s))"
proof (cases "cache s files")
  case None
  then obtain cs where
    "new_trace s (snd (build_qa_chain cfg rb t files s)) =
       bookkeeping cfg t files @ map Call cs"
    "messages (session (snd (build_qa_chain cfg rb t files s))) = messages (session s)"
    using build_qa_chain_miss_shape [of s files cfg rb t] by blast
  moreover obtain cs' c where
    "snd (build_qa_chain cfg rb t files s) =
       (perform_all rb cs' (record_training cfg t files s))\<lparr>cache := c\<rparr>"
    using None build_qa_chain_miss_state by blast
  ultimately show ?thesis
    by (simp add: advances_def history_def)
next
  case (Some chain)
  then show ?thesis by (simp add: build_qa_chain_hit)
qed

lemma show_upload_documents_form:
  "advances (emits upload_form s) (snd (show_upload_documents cfg rb t uploaded s))"
proof (cases uploaded)
  case None
  then show ?thesis
    by (simp add: show_upload_documents_def upload_form_def Let_def)
next
  case (Some files)
  show ?thesis
  proof (cases "files = []")
    case True
    with Some show ?thesis
      by (simp add: show_upload_documents_def upload_form_def Let_def)
  next
    case False
    have "advances (emits upload_form s)
        (emits [UI (Spinner ''Analyzing your document(s)...''), UI Holder_cleared]
           (emits upload_form s))"
      by (rule advances_emits)
    then have "advances (emits upload_form s)
        (snd (build_qa_chain cfg rb t files
           (emits [UI (Spinner ''Analyzing your document(s)...''), UI Holder_cleared]
              (emits upload_form s))))"
      using build_qa_chain_advances by (rule advances_trans)
    with Some False show ?thesis
      by (simp add: show_upload_documents_def upload_form_def Let_def)
  qed
qed

lemma show_upload_documents_advances [simp]:
  "advances s (snd (show_upload_documents cfg rb t uploaded s))"
  using advances_emits show_upload_documents_form by (rule advances_trans)

lemma show_status_row_advances [simp]: "advances s (snd (show_status_row cfg s))"
  by (simp add: show_status_row_def Let_def emit_emits split: option.splits)

lemma show_message_history_advances [simp]: "advances s (snd (show_message_history cfg s))"
  by (simp add: show_message_history_def split: option.splits)

lemma show_chat_input_advances [simp]:
  "advances s (snd (show_chat_input cfg rb ch pr chain s))"
proof (cases pr)
  case None
  then show ?thesis by (simp add: show_chat_input_def)
next
  case (Some p)
  show ?thesis
  proof (cases "p = []")
    case True
    with Some show ?thesis by (simp add: show_chat_input_def)
  next
    case False
    let ?s1 = "emit (UI (Chat_input ''Ask your question here'')) s"
    have "advances ?s1
       (snd (bind (append_message \<lparr>role = ''user'', content = p\<rparr>)
          (\<lambda>_ s2. ask_chain cfg rb ch p chain
                     (emits [UI (Chat_message ''user'' (user_avatar cfg)), UI (Markdown p)] s2))
          ?s1))"
    proof (rule bind_advances)
      show "advances ?s1 (snd (append_message \<lparr>role = ''user'', content = p\<rparr> ?s1))"
        by simp
      show "advances s'
         (snd (ask_chain cfg rb ch p chain
            (emits [UI (Chat_message ''user'' (user_avatar cfg)), UI (Markdown p)] s')))"
        for x :: unit and s' :: "'a state"
        by (rule advances_trans [OF advances_emits ask_chain_advances])
    qed
    then have "advances s
       (snd (bind (append_message \<lparr>role = ''user'', content = p\<rparr>)
          (\<lambda>_ s2. ask_chain cfg rb ch p chain
                     (emits [UI (Chat_message ''user'' (user_avatar cfg)), UI (Markdown p)] s2))
          ?s1))"
      using advances_emit advances_trans by blast
    with Some False show ?thesis by (simp add: show_chat_input_def)
  qed
qed

lemma init_messages_advances [simp]: "advances s (init_messages s)"
  by (simp add: init_messages_def advances_def history_def emit_def split: option.splits)

lemma trace_init_messages:
  "trace (init_messages s) =
     trace s @ (case messages (session s) of None \<Rightarrow> [Set_messages [greeting]] | Some ms \<Rightarrow> [])"
  by (simp add: init_messages_def emit_def split: option.splits)

lemma messages_init_messages:
  "messages (session (init_messages s)) = Some (history (init_messages s))"
  by (simp add: init_messages_def history_def emit_def split: option.splits)

lemma uis_of_simps [simp]:
  "uis_of [] = []"
  "uis_of (UI u # tr) = u # uis_of tr"
  "uis_of (Set_messages ms # tr) = uis_of tr"
  "uis_of (a @ b) = uis_of a @ uis_of b"
  by (simp_all add: uis_of_def)

lemma calls_of_simps [simp]:
  "calls_of (UI u # tr) = calls_of tr"
  "calls_of (Set_messages ms # tr) = calls_of tr"
  by (simp_all add: calls_of_def)

lemma script_rest_advances:
  "advances s
     (snd (bind (show_upload_documents cfg rb (now inp) (uploaded_files inp))
             (\<lambda>chain. bind (show_status_row cfg)
             (\<lambda>_. bind (show_message_history cfg)
             (\<lambda>_. show_chat_input cfg rb (choice inp) (prompt inp) chain))) s))"
  by (intro bind_advances) simp_all

lemma script_rest_form:
  "advances (emits upload_form s)
     (snd (bind (show_upload_documents cfg rb (now inp) (uploaded_files inp))
             (\<lambda>chain. bind (show_status_row cfg)
             (\<lambda>_. bind (show_message_history cfg)
             (\<lambda>_. show_chat_input cfg rb (choice inp) (prompt inp) chain))) s))"
proof (rule advances_trans [OF show_upload_documents_form])
  show "advances (snd (show_upload_documents cfg rb (now inp) (uploaded_files inp) s))
     (snd (bind (show_upload_documents cfg rb (now inp) (uploaded_files inp))
             (\<lambda>chain. bind (show_status_row cfg)
             (\<lambda>_. bind (show_message_history cfg)
             (\<lambda>_. show_chat_input cfg rb (choice inp) (prompt inp) chain))) s))"
    by (rule bind_step) (intro bind_advances, simp_all)
qed

lemma history_page_setup:
  "history (init_messages (emits es s)) = history (init_messages s)"
  by (simp add: init_messages_def history_def emit_def emits_def split: option.splits)

lemma script_unfold:
  "script cfg rb inp s =
     (if 0 < CONVERSATION_MESSAGES_LIMIT cfg \<and>
         CONVERSATION_MESSAGES_LIMIT cfg \<le> int (length (history (init_messages s)))
      then (Inl StopException,
            emit (UI (Warning limit_warning))
              (init_messages (emits [UI Set_page_config, UI Html_style, UI Markdown_style] s)))
      else bind (show_upload_documents cfg rb (now inp) (uploaded_files inp))
             (\<lambda>chain. bind (show_status_row cfg)
             (\<lambda>_. bind (show_message_history cfg)
             (\<lambda>_. show_chat_input cfg rb (choice inp) (prompt inp) chain)))
             (init_messages (emits [UI Set_page_config, UI Html_style, UI Markdown_style] s)))"
proof -
  let ?s1 = "init_messages (emits [UI Set_page_config, UI Html_style, UI Markdown_style] s)"
  have "messages (session ?s1) = Some (history (init_messages s))"
    using messages_init_messages [of "emits [UI Set_page_config, UI Html_style, UI Markdown_style] s"]
    by (simp only: history_page_setup)
  then show ?thesis
    by (simp add: script_def Let_def)
qed

lemma script_halts:
  assumes "0 < CONVERSATION_MESSAGES_LIMIT cfg"
    "CONVERSATION_MESSAGES_LIMIT cfg \<le> int (length (history (init_messages s)))"
  shows "script cfg rb inp s =
     (Inl StopException,
      emit (UI (Warning limit_warning))
        (init_messages (emits [UI Set_page_config, UI Html_style, UI Markdown_style] s)))"
  using assms by (simp only: script_unfold simp_thms if_True)

lemma script_goes_on:
  assumes "CONVERSATION_MESSAGES_LIMIT cfg \<le> 0"
  shows "script cfg rb inp s =
     bind (show_upload_documents cfg rb (now inp) (uploaded_files inp))
       (\<lambda>chain. bind (show_status_row cfg)
       (\<lambda>_. bind (show_message_history cfg)
       (\<lambda>_. show_chat_input cfg rb (choice inp) (prompt inp) chain)))
       (init_messages (emits [UI Set_page_config, UI Html_style, UI Markdown_style] s))"
proof -
  have "\<not> (0 < CONVERSATION_MESSAGES_LIMIT cfg \<and>
         CONVERSATION_MESSAGES_LIMIT cfg \<le> int (length (history (init_messages s))))"
    using assms by simp
  then show ?thesis by (simp only: script_unfold if_False)
qed

lemma script_advances [simp]: "advances s (snd (script cfg rb inp s))"
proof -
  let ?s1 = "init_messages (emits [UI Set_page_config, UI Html_style, UI Markdown_style] s)"
  have a: "advances s ?s1"
    by (rule advances_trans [OF advances_emits init_messages_advances])
  show ?thesis
  proof (cases "0 < CONVERSATION_MESSAGES_LIMIT cfg \<and>
                CONVERSATION_MESSAGES_LIMIT cfg \<le> int (length (history (init_messages s)))")
    case True
    then have "snd (script cfg rb inp s) = emit (UI (Warning limit_warning)) ?s1"
      by (simp only: script_unfold simp_thms if_True snd_conv)
    then show ?thesis
      using advances_trans [OF a advances_emit] by simp
  next
    case False
    then have "snd (script cfg rb inp s) =
       snd (bind (show_upload_documents cfg rb (now inp) (uploaded_files inp))
         (\<lambda>chain. bind (show_status_row cfg)
         (\<lambda>_. bind (show_message_history cfg)
         (\<lambda>_. show_chat_input cfg rb (choice inp) (prompt inp) chain))) ?s1)"
      by (simp only: script_unfold if_False)
    then show ?thesis
      using advances_trans [OF a script_rest_advances] by simp
  qed
qed

lemma run_session_advances: "advances s (run_session cfg rb inps s)"
proof (induction inps arbitrary: s)
  case Nil
  show ?case by simp
next
  case (Cons inp inps)
  show ?case
    using advances_trans [OF script_advances Cons.IH] by simp
qed

text \<open>
  Claim C7. The message history is append-only: its initialisation, the chat input (the
  submission of a question), \<open>ask_chain\<close> (the reception of an answer), a whole run of the
  script and any sequence of runs of a session leave the messages as they are or append
  at the end, so that the history before is a prefix of the history after. A history
  not yet created counts as empty.
\<close>

theorem messages_append_only:
  "prefix (history s) (history (init_messages s)) \<and>
   prefix (history s) (history (snd (show_chat_input cfg rb ch pr chain s))) \<and>
   prefix (history s) (history (snd (ask_chain cfg rb ch question chain s))) \<and>
   prefix (history s) (history (snd (script cfg rb inp s))) \<and>
   prefix (history s) (history (run_session cfg rb inps s))"
  using init_messages_advances [of s] show_chat_input_advances [of s cfg rb ch pr chain]
    ask_chain_advances [of s cfg rb ch question chain] script_advances [of s cfg rb inp]
    run_session_advances [of s cfg rb inps]
  by (simp add: advances_def)

text \<open>
  Claim C3, as amended. When \<^verbatim>\<open>Config.CONVERSATION_MESSAGES_LIMIT\<close> is strictly positive
  and the number of stored messages (once the history is initialised) is at least the
  limit, the script halts: besides the page set-up it shows the limit warning only, it
  calls no collaborator, and the upload handler, the message rendering and the chat input
  do not run. When the limit is zero or negative it is not enforced: the script goes on
  to the upload handler, however many messages are stored.
\<close>

theorem script_limit_guard:
  "(0 < CONVERSATION_MESSAGES_LIMIT cfg \<and>
    CONVERSATION_MESSAGES_LIMIT cfg \<le> int (length (history (init_messages s))) \<longrightarrow>
      fst (script cfg rb inp s) = Inl StopException \<and>
      uis_of (new_trace s (snd (script cfg rb inp s))) =
        [Set_page_config, Html_style, Markdown_style, Warning limit_warning] \<and>
      calls_of (new_trace s (snd (script cfg rb inp s))) = [] \<and>
      history (snd (script cfg rb inp s)) = history (init_messages s)) \<and>
   (CONVERSATION_MESSAGES_LIMIT cfg \<le> 0 \<longrightarrow>
      UI File_uploader \<in> set (new_trace s (snd (script cfg rb inp s))))"
proof (intro conjI impI)
  let ?s0 = "emits [UI Set_page_config, UI Html_style, UI Markdown_style] s"
  assume "0 < CONVERSATION_MESSAGES_LIMIT cfg \<and>
    CONVERSATION_MESSAGES_LIMIT cfg \<le> int (length (history (init_messages s)))"
  then have eq: "script cfg rb inp s =
     (Inl StopException, emit (UI (Warning limit_warning)) (init_messages ?s0))"
    by (simp add: script_halts)
  have tr: "new_trace s (snd (script cfg rb inp s)) =
      [UI Set_page_config, UI Html_style, UI Markdown_style] @
      (case messages (session s) of None \<Rightarrow> [Set_messages [greeting]] | Some ms \<Rightarrow> []) @
      [UI (Warning limit_warning)]"
    by (simp add: eq new_trace_def emit_def trace_init_messages)
  show "fst (script cfg rb inp s) = Inl StopException" by (simp add: eq)
  show "uis_of (new_trace s (snd (script cfg rb inp s))) =
        [Set_page_config, Html_style, Markdown_style, Warning limit_warning]"
    unfolding tr by (cases "messages (session s)") simp_all
  show "calls_of (new_trace s (snd (script cfg rb inp s))) = []"
    unfolding tr by (cases "messages (session s)") simp_all
  show "history (snd (script cfg rb inp s)) = history (init_messages s)"
    by (simp add: eq init_messages_def history_def emit_def emits_def split: option.splits)
next
  let ?s1 = "init_messages (emits [UI Set_page_config, UI Html_style, UI Markdown_style] s)"
  assume "CONVERSATION_MESSAGES_LIMIT cfg \<le> 0"
  then have "advances (emits upload_form ?s1) (snd (script cfg rb inp s))"
    by (simp only: script_goes_on script_rest_form)
  then obtain zs where zs: "trace (snd (script cfg rb inp s)) = trace ?s1 @ upload_form @ zs"
    by (auto simp: advances_def prefix_def)
  have "new_trace s (snd (script cfg rb inp s)) =
      [UI Set_page_config, UI Html_style, UI Markdown_style] @
      (case messages (session s) of None \<Rightarrow> [Set_messages [greeting]] | Some ms \<Rightarrow> []) @
      upload_form @ zs"
    by (simp add: zs new_trace_def trace_init_messages)
  then show "UI File_uploader \<in> set (new_trace s (snd (script cfg rb inp s)))"
    by (simp add: upload_form_def)
qed

text \<open>
  Claim C2. When the value of the file uploader is absent or the empty list,
  \<open>show_upload_documents\<close> shows its form and then the warning, halts the run, invokes no
  collaborator and changes nothing else of the state.
\<close>

theorem show_upload_documents_no_files:
  "uploaded = None \<or> uploaded = Some [] \<Longrightarrow>
   fst (show_upload_documents cfg rb t uploaded s) = Inl StopException \<and>
   new_trace s (snd (show_upload_documents cfg rb t uploaded s)) =
     upload_form @ [UI (Warning ''Please upload PDF documents to continue!'')] \<and>
   calls_of (new_trace s (snd (show_upload_documents cfg rb t uploaded s))) = [] \<and>
   snd (show_upload_documents cfg rb t uploaded s) =
     s\<lparr>trace := trace (snd (show_upload_documents cfg rb t uploaded s))\<rparr>"
  by (auto simp: show_upload_documents_def upload_form_def Let_def emit_emits emits_def
      new_trace_def)

lemmas run_simps =
  demo_simps demo_inputs_def unlimited_config_def greeted_state_def script_unfold
  init_messages_def history_def show_upload_documents_def show_status_row_def
  show_message_history_def show_chat_input_def ask_chain_eq stream_effects_def
  append_message_def demo_stream show_sources_def enumerate_eq_zip upt_rec Let_def
  new_trace_def avatar_of_def assistant_avatar_def user_avatar_def

text \<open>
  Claim C3 as stated fails: with the limit 0 and one stored message, the number of
  messages is at least the limit, and the script shows no limit warning, does not halt
  and answers the question.
\<close>

theorem script_unlimited_counterexample:
  "CONVERSATION_MESSAGES_LIMIT unlimited_config \<le> int (length (history greeted_state)) \<and>
   fst (script unlimited_config demo_ragbase demo_inputs greeted_state) = Inr () \<and>
   UI (Warning limit_warning) \<notin>
     set (trace (snd (script unlimited_config demo_ragbase demo_inputs greeted_state))) \<and>
   history (snd (script unlimited_config demo_ragbase demo_inputs greeted_state)) =
     [greeting, \<lparr>role = ''user'', content = ''hi''\<rparr>,
      \<lparr>role = ''assistant'', content = ''Hello''\<rparr>]"
  by (simp add: run_simps limit_warning_def)


text \<open>The theorem with the limit 1 on a new session, and with the limit 0.\<close>

theorem script_limit_guard_witness:
  "fst (script (demo_config\<lparr>CONVERSATION_MESSAGES_LIMIT := 1\<rparr>) demo_ragbase demo_inputs
          fresh_state) = Inl StopException \<and>
   uis_of (new_trace fresh_state
      (snd (script (demo_config\<lparr>CONVERSATION_MESSAGES_LIMIT := 1\<rparr>) demo_ragbase demo_inputs
              fresh_state))) =
     [Set_page_config, Html_style, Markdown_style, Warning limit_warning] \<and>
   calls_of (new_trace fresh_state
      (snd (script (demo_config\<lparr>CONVERSATION_MESSAGES_LIMIT := 1\<rparr>) demo_ragbase demo_inputs
              fresh_state))) = [] \<and>
   UI File_uploader \<in>
     set (new_trace greeted_state
            (snd (script unlimited_config demo_ragbase demo_inputs greeted_state)))"
proof -
  have a: "0 < CONVERSATION_MESSAGES_LIMIT (demo_config\<lparr>CONVERSATION_MESSAGES_LIMIT := 1\<rparr>)"
    "CONVERSATION_MESSAGES_LIMIT (demo_config\<lparr>CONVERSATION_MESSAGES_LIMIT := 1\<rparr>) \<le>
       int (length (history (init_messages fresh_state)))"
    by (simp_all add: demo_config_def fresh_state_def init_messages_def history_def emit_def)
  have b: "CONVERSATION_MESSAGES_LIMIT unlimited_config \<le> 0"
    by (simp add: unlimited_config_def)
  show ?thesis
    using a b
      script_limit_guard [of "demo_config\<lparr>CONVERSATION_MESSAGES_LIMIT := 1\<rparr>" fresh_state
        demo_ragbase demo_inputs]
      script_limit_guard [of unlimited_config greeted_state demo_ragbase demo_inputs]
    by simp
qed

text \<open>The theorem for an absent value and for the empty list.\<close>

theorem show_upload_documents_no_files_witness:
  "fst (show_upload_documents demo_config demo_ragbase clock1 None fresh_state) =
     Inl StopException \<and>
   uis_of (new_trace fresh_state
      (snd (show_upload_documents demo_config demo_ragbase clock1 None fresh_state))) =
     [St_empty, Title (''Document Ingestion Portal '' @ emoji_folder),
      Header (''VectorDB for VS-GPT '' @ emoji_vs @ emoji_robot),
      Subheader ''Upload your documents to create the knowledge base'', File_uploader,
      Warning ''Please upload PDF documents to continue!''] \<and>
   calls_of (new_trace fresh_state
      (snd (show_upload_documents demo_config demo_ragbase clock1 None fresh_state))) = [] \<and>
   fst (show_upload_documents demo_config demo_ragbase clock1 (Some []) fresh_state) =
     Inl StopException \<and>
   calls_of (new_trace fresh_state
      (snd (show_upload_documents demo_config demo_ragbase clock1 (Some []) fresh_state))) = []"
  using show_upload_documents_no_files [of None demo_config demo_ragbase clock1 fresh_state]
    show_upload_documents_no_files [of "Some []" demo_config demo_ragbase clock1 fresh_state]
  by (simp add: upload_form_def)

text \<open>The theorem on a first run that asks a question, followed by a second run.\<close>

theorem messages_append_only_witness:
  "history fresh_state = [] \<and>
   history (snd (script demo_config demo_ragbase demo_inputs fresh_state)) =
     [greeting, \<lparr>role = ''user'', content = ''hi''\<rparr>,
      \<lparr>role = ''assistant'', content = ''Hello''\<rparr>] \<and>
   prefix (history (snd (script demo_config demo_ragbase demo_inputs fresh_state)))
     (history (run_session demo_config demo_ragbase [demo_inputs]
        (snd (script demo_config demo_ragbase demo_inputs fresh_state))))"
proof -
  have a: "history fresh_state = []"
    by (simp add: fresh_state_def history_def)
  have b: "history (snd (script demo_config demo_ragbase demo_inputs fresh_state)) =
     [greeting, \<lparr>role = ''user'', content = ''hi''\<rparr>,
      \<lparr>role = ''assistant'', content = ''Hello''\<rparr>]"
    by (simp add: run_simps)
  show ?thesis
    using a b
      messages_append_only [of "snd (script demo_config demo_ragbase demo_inputs fresh_state)"
        demo_config demo_ragbase 3 None 623 "''hi''" demo_inputs "[demo_inputs]"]
    by simp
qed

end
